theory Spec2Isabelle
  imports Main "HOL-Library.AList"
begin

section \<open>Values\<close>

text \<open>
  The extractor (\<^verbatim>\<open>extractor.py\<close>) reads rows of an SQLite database and builds nested
  Python dictionaries. Text is modelled by \<^typ>\<open>string\<close>, holding the UTF-8 bytes of
  the Python \<^verbatim>\<open>str\<close>: for ASCII text (all the identifiers that \<^verbatim>\<open>quote()\<close> delivers and all
  the numeric tokens) length, slicing and splitting are those of Python. Byte strings
  (\<^verbatim>\<open>bytes\<close>) are \<^typ>\<open>string\<close> too, under their own constructor.
\<close>

datatype error =
    ValueError | KeyError | IndexError | AttributeError | TypeError
  | UnicodeDecodeError | JSONDecodeError

text \<open>A Python float: \<open>\<plusminus> mantissa * 2 ^ exponent\<close>, an infinity or a NaN. No arithmetic
  is done on floats; only their truth value is read.\<close>

datatype pyfloat = PyFloat bool nat int | PyInf bool | PyNaN

text \<open>A cell of an \<^verbatim>\<open>sqlite3.Row\<close>.\<close>

datatype sqlval = SNull | SInt int | SReal pyfloat | SText string | SBlob string

text \<open>Dictionary keys of the document are strings or \<^verbatim>\<open>None\<close> (an absent identifier).\<close>

datatype pykey = KNone | KStr string

text \<open>Python values. A dictionary is an association list in insertion order with
  distinct keys; \<^verbatim>\<open>defaultdict\<close> is a dictionary whose missing keys are created at the
  places where the code reads them.\<close>

datatype pyval =
    VNone | VBool bool | VInt int | VFloat pyfloat | VStr string | VBytes string
  | VList "pyval list" | VDict "(pykey \<times> pyval) list"

type_synonym pydict = "(pykey \<times> pyval) list"
type_synonym row = "string \<Rightarrow> sqlval option"

definition ebind :: "error + 'a \<Rightarrow> ('a \<Rightarrow> error + 'b) \<Rightarrow> error + 'b" where
  "ebind m f = (case m of Inl e \<Rightarrow> Inl e | Inr x \<Rightarrow> f x)"

fun emap :: "('a \<Rightarrow> error + 'b) \<Rightarrow> 'a list \<Rightarrow> error + 'b list" where
  "emap f [] = Inr []"
| "emap f (x # xs) = ebind (f x) (\<lambda>y. ebind (emap f xs) (\<lambda>ys. Inr (y # ys)))"

definition of_sql :: "sqlval \<Rightarrow> pyval" where
  "of_sql c = (case c of SNull \<Rightarrow> VNone | SInt i \<Rightarrow> VInt i | SReal f \<Rightarrow> VFloat f
     | SText s \<Rightarrow> VStr s | SBlob b \<Rightarrow> VBytes b)"

definition float_truthy :: "pyfloat \<Rightarrow> bool" where
  "float_truthy f = (case f of PyFloat _ m _ \<Rightarrow> m \<noteq> 0 | _ \<Rightarrow> True)"

definition truthy :: "pyval \<Rightarrow> bool" where
  "truthy v = (case v of VNone \<Rightarrow> False | VBool b \<Rightarrow> b | VInt i \<Rightarrow> i \<noteq> 0
     | VFloat f \<Rightarrow> float_truthy f | VStr s \<Rightarrow> s \<noteq> [] | VBytes b \<Rightarrow> b \<noteq> []
     | VList xs \<Rightarrow> xs \<noteq> [] | VDict d \<Rightarrow> d \<noteq> [])"

definition sql_truthy :: "sqlval \<Rightarrow> bool" where
  "sql_truthy c = truthy (of_sql c)"

text \<open>\<^verbatim>\<open>item[key]\<close> on a row: a column that the query did not select raises IndexError.\<close>

definition row_get :: "row \<Rightarrow> string \<Rightarrow> error + sqlval" where
  "row_get item key = (case item key of None \<Rightarrow> Inl IndexError | Some c \<Rightarrow> Inr c)"

subsection \<open>Dictionaries\<close>

definition dget :: "pydict \<Rightarrow> pykey \<Rightarrow> error + pyval" where
  "dget d k = (case map_of d k of None \<Rightarrow> Inl KeyError | Some v \<Rightarrow> Inr v)"

definition dset :: "pydict \<Rightarrow> pykey \<Rightarrow> pyval \<Rightarrow> pydict" where
  "dset d k v = AList.update k v d"

definition ddel :: "pydict \<Rightarrow> pykey \<Rightarrow> error + pydict" where
  "ddel d k = (case map_of d k of None \<Rightarrow> Inl KeyError | Some _ \<Rightarrow> Inr (AList.delete k d))"

text \<open>\<^verbatim>\<open>v[k]\<close> with a string key: only a dictionary can be read so.\<close>

definition subscript :: "pyval \<Rightarrow> string \<Rightarrow> error + pyval" where
  "subscript v k = (case v of VDict d \<Rightarrow> dget d (KStr k) | _ \<Rightarrow> Inl TypeError)"

text \<open>\<^verbatim>\<open>for x in v\<close>: the elements of a list, the characters of a string, the bytes of a
  byte string, the keys of a dictionary; anything else is not iterable.\<close>

definition key_val :: "pykey \<Rightarrow> pyval" where
  "key_val k = (case k of KNone \<Rightarrow> VNone | KStr s \<Rightarrow> VStr s)"

definition py_iter :: "pyval \<Rightarrow> error + pyval list" where
  "py_iter v = (case v of VList xs \<Rightarrow> Inr xs
     | VStr s \<Rightarrow> Inr (map (\<lambda>c. VStr [c]) s)
     | VBytes b \<Rightarrow> Inr (map (\<lambda>c. VInt (of_char c)) b)
     | VDict d \<Rightarrow> Inr (map (key_val \<circ> fst) d)
     | _ \<Rightarrow> Inl TypeError)"

text \<open>\<^verbatim>\<open>xs[i]\<close>: an index below zero counts from the end of the list.\<close>

definition py_index :: "'a list \<Rightarrow> int \<Rightarrow> error + 'a" where
  "py_index xs i =
     (if 0 \<le> i \<and> i < int (length xs) then Inr (xs ! nat i)
      else if i < 0 \<and> - i \<le> int (length xs) then Inr (xs ! nat (int (length xs) + i))
      else Inl IndexError)"

section \<open>Strings\<close>

text \<open>\<^verbatim>\<open>s.split(sep)\<close> for a separator of one character (every call of the source passes
  \<^verbatim>\<open>'|'\<close>, \<^verbatim>\<open>'*'\<close> or \<^verbatim>\<open>'='\<close>).\<close>

fun split_on :: "char \<Rightarrow> string \<Rightarrow> string list" where
  "split_on sep [] = [[]]"
| "split_on sep (c # cs) =
     (if c = sep then [] # split_on sep cs
      else (case split_on sep cs of [] \<Rightarrow> [[c]] | t # ts \<Rightarrow> (c # t) # ts))"

text \<open>\<^verbatim>\<open>s.replace(old, '')\<close>.\<close>

fun remove_sub :: "string \<Rightarrow> string \<Rightarrow> string" where
  "remove_sub old [] = []"
| "remove_sub old (c # cs) =
     (if old \<noteq> [] \<and> take (length old) (c # cs) = old
      then remove_sub old (drop (length old - 1) cs)
      else c # remove_sub old cs)"

text \<open>\<^verbatim>\<open>s.strip(chars)\<close> and \<^verbatim>\<open>s.strip()\<close>. The white space of \<^verbatim>\<open>str\<close> in the ASCII range is
  TAB, LF, VT, FF, CR, FS, GS, RS, US and the blank; that of \<^verbatim>\<open>bytes\<close> is TAB, LF, VT, FF, CR
  and the blank.\<close>

definition strip_with :: "(char \<Rightarrow> bool) \<Rightarrow> string \<Rightarrow> string" where
  "strip_with P s = rev (dropWhile P (rev (dropWhile P s)))"

definition str_space :: "char \<Rightarrow> bool" where
  "str_space c = (let n = (of_char c :: nat) in (9 \<le> n \<and> n \<le> 13) \<or> (28 \<le> n \<and> n \<le> 32))"

definition bytes_space :: "char \<Rightarrow> bool" where
  "bytes_space c = (let n = (of_char c :: nat) in (9 \<le> n \<and> n \<le> 13) \<or> n = 32)"

subsection \<open>\<^verbatim>\<open>int(s, base)\<close>\<close>

text \<open>The value of a digit: \<^verbatim>\<open>0-9\<close>, then the letters of either case from ten on.\<close>

definition digit_val :: "nat \<Rightarrow> char \<Rightarrow> nat option" where
  "digit_val base c =
     (let n = (of_char c :: nat);
          v = (if 48 \<le> n \<and> n \<le> 57 then Some (n - 48)
               else if 97 \<le> n \<and> n \<le> 122 then Some (n - 87)
               else if 65 \<le> n \<and> n \<le> 90 then Some (n - 55)
               else None)
      in case v of None \<Rightarrow> None | Some d \<Rightarrow> if d < base then Some d else None)"

text \<open>Digits after the first: a single underscore may stand between two digits.\<close>

fun parse_digits :: "nat \<Rightarrow> nat \<Rightarrow> string \<Rightarrow> nat option" where
  "parse_digits base acc [] = Some acc"
| "parse_digits base acc [c] =
     (case digit_val base c of None \<Rightarrow> None | Some d \<Rightarrow> Some (acc * base + d))"
| "parse_digits base acc (c # c' # cs) =
     (if c = CHR ''_''
      then (case digit_val base c' of None \<Rightarrow> None
            | Some d \<Rightarrow> parse_digits base (acc * base + d) cs)
      else (case digit_val base c of None \<Rightarrow> None
            | Some d \<Rightarrow> parse_digits base (acc * base + d) (c' # cs)))"

definition parse_number :: "nat \<Rightarrow> string \<Rightarrow> nat option" where
  "parse_number base s =
     (case s of [] \<Rightarrow> None
      | c # cs \<Rightarrow> (case digit_val base c of None \<Rightarrow> None
                   | Some d \<Rightarrow> parse_digits base d cs))"

text \<open>White space around the literal, a sign, and for base 16 the prefix \<^verbatim>\<open>0x\<close>, which one
  underscore may follow.\<close>

definition strip_prefix16 :: "nat \<Rightarrow> string \<Rightarrow> string" where
  "strip_prefix16 base s =
     (if base = 16 \<and> (take 2 s = ''0x'' \<or> take 2 s = ''0X'')
      then (if take 1 (drop 2 s) = ''_'' then drop 3 s else drop 2 s)
      else s)"

definition py_int :: "nat \<Rightarrow> string \<Rightarrow> error + int" where
  "py_int base s =
     (let t = strip_with str_space s;
          neg = (take 1 t = ''-'');
          u = (if take 1 t = ''-'' \<or> take 1 t = ''+'' then drop 1 t else t)
      in case parse_number base (strip_prefix16 base u) of
           None \<Rightarrow> Inl ValueError
         | Some n \<Rightarrow> Inr (if neg then - int n else int n))"

section \<open>Identifier codec\<close>

text \<open>\<^verbatim>\<open>'%032x' % n\<close>: the hexadecimal digits of \<open>n\<close> in lower case, padded with zeros to 32.\<close>

definition hex_lower :: "nat \<Rightarrow> char" where
  "hex_lower d = ''0123456789abcdef'' ! d"

fun to_hex :: "nat \<Rightarrow> string" where
  "to_hex n = (if n < 16 then [hex_lower n] else to_hex (n div 16) @ [hex_lower (n mod 16)])"

declare to_hex.simps [simp del]

definition zfill :: "nat \<Rightarrow> string \<Rightarrow> string" where
  "zfill w s = replicate (w - length s) (CHR ''0'') @ s"

text \<open>\<^verbatim>\<open>str(uuid.UUID(int=n))\<close>: groups of 8, 4, 4, 4 and 12 digits.\<close>

definition hyphenate :: "string \<Rightarrow> string" where
  "hyphenate h =
     take 8 h @ ''-'' @ take 4 (drop 8 h) @ ''-'' @ take 4 (drop 12 h) @ ''-''
       @ take 4 (drop 16 h) @ ''-'' @ drop 20 h"

definition uuid_str :: "nat \<Rightarrow> string" where
  "uuid_str n = hyphenate (zfill 32 (to_hex n))"

text \<open>\<^verbatim>\<open>uuid.UUID(hex)\<close> of the standard library: the prefixes \<^verbatim>\<open>urn:\<close> and \<^verbatim>\<open>uuid:\<close>, braces at
  the ends and hyphens are dropped; what is left must be 32 characters that \<^verbatim>\<open>int(_, 16)\<close>
  reads as a number below \<open>2 ^ 128\<close>.\<close>

definition uuid_of_hex :: "string \<Rightarrow> error + nat" where
  "uuid_of_hex s =
     (let h1 = remove_sub ''uuid:'' (remove_sub ''urn:'' s);
          h2 = remove_sub ''-'' (strip_with (\<lambda>c. c = CHR ''{'' \<or> c = CHR ''}'') h1)
      in if length h2 \<noteq> 32 then Inl ValueError
         else ebind (py_int 16 h2)
                (\<lambda>i. if 0 \<le> i \<and> i < 2 ^ 128 then Inr (nat i) else Inl ValueError))"

text \<open>\<^verbatim>\<open>uuidFormat(s)\<close> is \<^verbatim>\<open>str(uuid.UUID(s))\<close>. The payload may hand it any value: one
  without a \<^verbatim>\<open>replace\<close> method raises AttributeError, a byte string or \<^verbatim>\<open>None\<close> raises
  TypeError.\<close>

definition uuidFormat :: "pyval \<Rightarrow> error + string" where
  "uuidFormat v = (case v of
       VStr s \<Rightarrow> ebind (uuid_of_hex s) (\<lambda>n. Inr (uuid_str n))
     | VBytes _ \<Rightarrow> Inl TypeError
     | VNone \<Rightarrow> Inl TypeError
     | _ \<Rightarrow> Inl AttributeError)"

text \<open>\<^verbatim>\<open>toUUID(s)\<close>, applied to cells of a row. A number that is not zero has no length
  (TypeError); \<^verbatim>\<open>s[2:-1]\<close> drops two characters in front and one at the end.\<close>

definition toUUID :: "sqlval \<Rightarrow> error + string option" where
  "toUUID c =
     (if \<not> sql_truthy c \<or> c = SText ''NULL'' then Inr None
      else case c of
          SText s \<Rightarrow> if length s < 4 then Inr None
                     else ebind (uuidFormat (VStr (butlast (drop 2 s)))) (\<lambda>u. Inr (Some u))
        | SBlob b \<Rightarrow> if length b < 4 then Inr None
                     else ebind (uuidFormat (VBytes (butlast (drop 2 b)))) (\<lambda>u. Inr (Some u))
        | _ \<Rightarrow> Inl TypeError)"

text \<open>The result of \<^verbatim>\<open>toUUID\<close> as a value and as a dictionary key.\<close>

definition opt_val :: "string option \<Rightarrow> pyval" where
  "opt_val u = (case u of None \<Rightarrow> VNone | Some s \<Rightarrow> VStr s)"

definition opt_key :: "string option \<Rightarrow> pykey" where
  "opt_key u = (case u of None \<Rightarrow> KNone | Some s \<Rightarrow> KStr s)"

section \<open>Composite field decoders\<close>

text \<open>\<^verbatim>\<open>toList(obj, field, sep)\<close>. The cell is tested for truth, then split; a number has no
  \<^verbatim>\<open>split\<close> (AttributeError) and a byte string refuses a text separator (TypeError). The
  result is a list of strings.\<close>

definition toList :: "row \<Rightarrow> string \<Rightarrow> char \<Rightarrow> error + string list" where
  "toList obj field sep =
     ebind (row_get obj field) (\<lambda>c.
       if \<not> sql_truthy c then Inr []
       else case c of SText s \<Rightarrow> Inr (split_on sep s)
            | SBlob b \<Rightarrow> Inl TypeError
            | _ \<Rightarrow> Inl AttributeError)"

text \<open>\<^verbatim>\<open>toDict(obj, field, sep)\<close>: \<^verbatim>\<open>k, v = item.split('=')\<close> raises ValueError unless the
  segment has exactly two parts.\<close>

fun toDict_loop :: "string list \<Rightarrow> pydict \<Rightarrow> error + pydict" where
  "toDict_loop [] data = Inr data"
| "toDict_loop (item # items) data =
     (case split_on (CHR ''='') item of
        [k, v] \<Rightarrow> toDict_loop items (dset data (KStr k) (VStr v))
      | _ \<Rightarrow> Inl ValueError)"

definition toDict :: "row \<Rightarrow> string \<Rightarrow> char \<Rightarrow> error + pyval" where
  "toDict obj field sep =
     ebind (row_get obj field) (\<lambda>c.
       if \<not> sql_truthy c then Inr (VList [])
       else case c of
              SText s \<Rightarrow> ebind (toDict_loop (split_on sep s) []) (\<lambda>data. Inr (VDict data))
            | SBlob b \<Rightarrow> Inl TypeError
            | _ \<Rightarrow> Inl AttributeError)"

definition str_list :: "string list \<Rightarrow> pyval" where
  "str_list xs = VList (map VStr xs)"

section \<open>The wire format\<close>

text \<open>The document is written and read back with the \<^verbatim>\<open>json\<close> module. The syntax tree of
  a JSON text stands for the text: \<^verbatim>\<open>json.dumps\<close> writes the tree \<open>json_encode\<close> of a value
  (a key \<^verbatim>\<open>None\<close> is written as \<^verbatim>\<open>"null"\<close>, a byte string is refused with TypeError), and
  \<^verbatim>\<open>json.loads\<close> builds the value \<open>json_decode\<close> of the tree it parses (a repeated member
  name keeps its first place and its last value). The parser of JSON text itself is a
  parameter \<open>jparse\<close> of the strategies that read the payload column.\<close>

datatype json =
    JNull | JBool bool | JInt int | JFloat pyfloat | JStr string
  | JArr "json list" | JObj "(string \<times> json) list"

definition key_str :: "pykey \<Rightarrow> string" where
  "key_str k = (case k of KNone \<Rightarrow> ''null'' | KStr s \<Rightarrow> s)"

fun json_encode :: "pyval \<Rightarrow> error + json"
  and encode_list :: "pyval list \<Rightarrow> error + json list"
  and encode_items :: "(pykey \<times> pyval) list \<Rightarrow> error + (string \<times> json) list" where
  "json_encode VNone = Inr JNull"
| "json_encode (VBool b) = Inr (JBool b)"
| "json_encode (VInt i) = Inr (JInt i)"
| "json_encode (VFloat f) = Inr (JFloat f)"
| "json_encode (VStr s) = Inr (JStr s)"
| "json_encode (VBytes b) = Inl TypeError"
| "json_encode (VList xs) = ebind (encode_list xs) (\<lambda>js. Inr (JArr js))"
| "json_encode (VDict kvs) = ebind (encode_items kvs) (\<lambda>ms. Inr (JObj ms))"
| "encode_list [] = Inr []"
| "encode_list (x # xs) =
     ebind (json_encode x) (\<lambda>j. ebind (encode_list xs) (\<lambda>js. Inr (j # js)))"
| "encode_items [] = Inr []"
| "encode_items ((k, v) # kvs) =
     ebind (json_encode v) (\<lambda>j. ebind (encode_items kvs) (\<lambda>ms. Inr ((key_str k, j) # ms)))"

fun json_decode :: "json \<Rightarrow> pyval"
  and decode_list :: "json list \<Rightarrow> pyval list"
  and decode_members :: "(string \<times> json) list \<Rightarrow> pydict \<Rightarrow> pydict" where
  "json_decode JNull = VNone"
| "json_decode (JBool b) = VBool b"
| "json_decode (JInt i) = VInt i"
| "json_decode (JFloat f) = VFloat f"
| "json_decode (JStr s) = VStr s"
| "json_decode (JArr js) = VList (decode_list js)"
| "json_decode (JObj ms) = VDict (decode_members ms [])"
| "decode_list [] = []"
| "decode_list (j # js) = json_decode j # decode_list js"
| "decode_members [] d = d"
| "decode_members ((k, j) # ms) d = decode_members ms (dset d (KStr k) (json_decode j))"

text \<open>\<^verbatim>\<open>json.loads(json.dumps(v))\<close>.\<close>

definition redump :: "pyval \<Rightarrow> error + pyval" where
  "redump v = ebind (json_encode v) (\<lambda>j. Inr (json_decode j))"

text \<open>\<^verbatim>\<open>json.loads(s)\<close> on text.\<close>

definition json_loads :: "(string \<Rightarrow> json option) \<Rightarrow> string \<Rightarrow> error + pyval" where
  "json_loads jparse s =
     (case jparse s of None \<Rightarrow> Inl JSONDecodeError | Some j \<Rightarrow> Inr (json_decode j))"

text \<open>\<^verbatim>\<open>b.decode('utf-8')\<close>: the bytes must be well-formed UTF-8 (no overlong form, no
  surrogate, nothing above U+10FFFF); the text is then those same bytes.\<close>

definition cont_byte :: "nat \<Rightarrow> bool" where
  "cont_byte b = (128 \<le> b \<and> b \<le> 191)"

fun utf8_valid :: "nat list \<Rightarrow> bool" where
  "utf8_valid [] = True"
| "utf8_valid (b # bs) =
     (if b < 128 then utf8_valid bs
      else if 194 \<le> b \<and> b \<le> 223 then
        (case bs of b1 # r \<Rightarrow> cont_byte b1 \<and> utf8_valid r | _ \<Rightarrow> False)
      else if 224 \<le> b \<and> b \<le> 239 then
        (case bs of b1 # b2 # r \<Rightarrow>
           (if b = 224 then 160 \<le> b1 \<and> b1 \<le> 191
            else if b = 237 then 128 \<le> b1 \<and> b1 \<le> 159
            else cont_byte b1) \<and> cont_byte b2 \<and> utf8_valid r
         | _ \<Rightarrow> False)
      else if 240 \<le> b \<and> b \<le> 244 then
        (case bs of b1 # b2 # b3 # r \<Rightarrow>
           (if b = 240 then 144 \<le> b1 \<and> b1 \<le> 191
            else if b = 244 then 128 \<le> b1 \<and> b1 \<le> 143
            else cont_byte b1) \<and> cont_byte b2 \<and> cont_byte b3 \<and> utf8_valid r
         | _ \<Rightarrow> False)
      else False)"

definition decode_utf8 :: "string \<Rightarrow> error + string" where
  "decode_utf8 b = (if utf8_valid (map of_char b) then Inr b else Inl UnicodeDecodeError)"

section \<open>Parsing strategies\<close>

text \<open>The classes that \<^verbatim>\<open>ParseFactory.get_strategy\<close> instantiates.\<close>

datatype strategy =
    ParseStrategy | BoxSetStrategy | ParsePersonStragegy | ParseGenreStrategy
  | ParseTvSeries | ParseTvSeason | ParseTvEpisode

definition get_strategy :: "string \<Rightarrow> strategy" where
  "get_strategy entity_type =
     (if entity_type = ''person'' then ParsePersonStragegy
      else if entity_type = ''tv-episode'' then ParseTvEpisode
      else if entity_type = ''tv-season'' then ParseTvSeason
      else if entity_type = ''tv-series'' then ParseTvSeries
      else if entity_type \<in> set [''genre-music'', ''genre''] then ParseGenreStrategy
      else if entity_type = ''box-set'' then BoxSetStrategy
      else ParseStrategy)"

definition blob_fields :: "string list" where
  "blob_fields = [''guid'', ''parentId'']"

definition date_fields :: "string list" where
  "date_fields = [''dateCreated'', ''dateModified'']"

definition dict_fields :: "string list" where
  "dict_fields = [''externalIds'']"

fun list_fields :: "strategy \<Rightarrow> string list" where
  "list_fields BoxSetStrategy = [''genres'', ''studios'']"
| "list_fields ParseTvSeries = [''genres'', ''studios'']"
| "list_fields ParseTvSeason = [''genres'', ''studios'']"
| "list_fields ParseTvEpisode = [''genres'', ''studios'']"
| "list_fields _ = []"

fun text_fields :: "strategy \<Rightarrow> string list" where
  "text_fields BoxSetStrategy =
     [''path'', ''type'', ''productionYear'', ''premiereDate'', ''officialRating'']"
| "text_fields ParseTvSeries =
     [''productionYear'', ''premiereDate'', ''officialRating'', ''path'', ''tags'']"
| "text_fields ParseTvSeason =
     [''productionYear'', ''premiereDate'', ''officialRating'', ''path'', ''tags'']"
| "text_fields ParseTvEpisode =
     [''indexNumber'', ''parentIndexNumber'', ''productionYear'', ''premiereDate'',
      ''officialRating'', ''path'', ''type'', ''tags'']"
| "text_fields _ = [''path'', ''type'']"

text \<open>\<^verbatim>\<open>get_names\<close>: \<^verbatim>\<open>item['name'].strip()\<close> exists for text and for byte strings only.\<close>

definition get_names :: "row \<Rightarrow> error + pyval" where
  "get_names item =
     ebind (row_get item ''name'') (\<lambda>c.
       ebind (case c of SText s \<Rightarrow> Inr (VStr (strip_with str_space s))
              | SBlob b \<Rightarrow> Inr (VBytes (strip_with bytes_space b))
              | _ \<Rightarrow> Inl AttributeError)
         (\<lambda>n. Inr (VList [VDict [(KStr ''name'', n), (KStr ''locale'', VStr ''en'')]])))"

text \<open>\<^verbatim>\<open>get_images\<close>: one descriptor for each entry of the images column.\<close>

definition image_of :: "string \<Rightarrow> error + pyval" where
  "image_of data =
     (let image = split_on (CHR ''*'') data in
      ebind (py_index image 0) (\<lambda>p.
      ebind (py_index image (- 3)) (\<lambda>t.
      ebind (ebind (py_index image (- 2)) (py_int 10)) (\<lambda>h.
      ebind (ebind (py_index image (- 1)) (py_int 10)) (\<lambda>w.
        Inr (VDict [(KStr ''path'', VStr p), (KStr ''type'', VStr t),
                    (KStr ''height'', VInt h), (KStr ''width'', VInt w)]))))))"

definition get_images :: "row \<Rightarrow> error + pyval" where
  "get_images item =
     ebind (toList item ''images'' (CHR ''|'')) (\<lambda>entries.
       ebind (emap image_of entries) (\<lambda>images. Inr (VList images)))"

text \<open>\<^verbatim>\<open>hasattr(data, name)\<close> on a dictionary looks for an attribute, not for a key: a
  dictionary has its methods and nothing else.\<close>

definition dict_attributes :: "string list" where
  "dict_attributes =
     [''clear'', ''copy'', ''fromkeys'', ''get'', ''items'', ''keys'', ''pop'', ''popitem'',
      ''setdefault'', ''update'', ''values'',
      ''__class__'', ''__class_getitem__'', ''__contains__'', ''__delattr__'', ''__delitem__'',
      ''__dir__'', ''__doc__'', ''__eq__'', ''__format__'', ''__ge__'', ''__getattribute__'',
      ''__getitem__'', ''__getstate__'', ''__gt__'', ''__hash__'', ''__init__'',
      ''__init_subclass__'', ''__ior__'', ''__iter__'', ''__le__'', ''__len__'', ''__lt__'',
      ''__ne__'', ''__new__'', ''__or__'', ''__reduce__'', ''__reduce_ex__'', ''__repr__'',
      ''__reversed__'', ''__ror__'', ''__setattr__'', ''__setitem__'', ''__sizeof__'',
      ''__str__'', ''__subclasshook__'']"

definition hasattr_dict :: "string \<Rightarrow> bool" where
  "hasattr_dict name = (name \<in> set dict_attributes)"

text \<open>The loop of \<^verbatim>\<open>parse_trailers\<close> over the trailers, on the \<^verbatim>\<open>files\<close> container (a
  \<^verbatim>\<open>defaultdict(list)\<close>). In \<^verbatim>\<open>data['files']['trailers'].append({... item['Url']})\<close> the list
  is looked up, and so created, before \<^verbatim>\<open>item['Url']\<close> is read. The loop returns the
  container as it stands and the error that stopped it, if any.\<close>

fun trailers_loop :: "pyval list \<Rightarrow> pydict \<Rightarrow> pydict \<times> error option" where
  "trailers_loop [] files = (files, None)"
| "trailers_loop (item # items) files =
     (let touched = (case map_of files (KStr ''trailers'') of
                       None \<Rightarrow> dset files (KStr ''trailers'') (VList [])
                     | Some _ \<Rightarrow> files)
      in case subscript item ''Url'' of
           Inl e \<Rightarrow> (touched, Some e)
         | Inr url \<Rightarrow>
             (case map_of touched (KStr ''trailers'') of
                Some (VList ts) \<Rightarrow>
                  trailers_loop items
                    (dset touched (KStr ''trailers'')
                       (VList (ts @ [VDict [(KStr ''remote'', VBool True), (KStr ''url'', url)]])))
              | _ \<Rightarrow> (touched, Some AttributeError)))"

text \<open>\<^verbatim>\<open>parse_trailers(data)\<close>. Only KeyError is caught.\<close>

definition parse_trailers :: "pydict \<Rightarrow> error + pydict" where
  "parse_trailers data0 =
     (let data = (if \<not> hasattr_dict ''files'' then dset data0 (KStr ''files'') (VDict [])
                  else data0)
      in case ebind (dget data (KStr ''data'')) (\<lambda>payload.
              ebind (subscript payload ''RemoteTrailers'') (\<lambda>rt.
              ebind (py_iter rt) (\<lambda>items. Inr (payload, items)))) of
           Inl e \<Rightarrow> if e = KeyError then Inr data else Inl e
         | Inr (payload, items) \<Rightarrow>
             (case (if items = [] then Inr (VDict []) else dget data (KStr ''files'')) of
                Inl e \<Rightarrow> if e = KeyError then Inr data else Inl e
              | Inr (VDict files) \<Rightarrow>
                  (case trailers_loop items files of
                     (files', Some e) \<Rightarrow>
                       if e = KeyError then Inr (dset data (KStr ''files'') (VDict files'))
                       else Inl e
                   | (files', None) \<Rightarrow>
                       (let data' = (if items = [] then data
                                     else dset data (KStr ''files'') (VDict files'))
                        in case payload of
                             VDict p \<Rightarrow>
                               Inr (dset data' (KStr ''data'')
                                      (VDict (AList.delete (KStr ''RemoteTrailers'') p)))
                           | _ \<Rightarrow> Inl TypeError))
              | Inr _ \<Rightarrow> Inl TypeError))"

text \<open>\<^verbatim>\<open>ParseStrategy.parse_data\<close>: the payload column, as bytes or as text; a number that is
  not zero is refused by \<^verbatim>\<open>json.loads\<close> (TypeError). An empty or null column leaves the
  entity without \<^verbatim>\<open>data\<close>.\<close>

definition payload_of :: "(string \<Rightarrow> json option) \<Rightarrow> row \<Rightarrow> error + pyval option" where
  "payload_of jparse item =
     ebind (row_get item ''data'') (\<lambda>c.
       case c of
         SBlob b \<Rightarrow>
           ebind (decode_utf8 b) (\<lambda>s. ebind (json_loads jparse s) (\<lambda>v. Inr (Some v)))
       | SText s \<Rightarrow>
           if s \<noteq> [] then ebind (json_loads jparse s) (\<lambda>v. Inr (Some v)) else Inr None
       | _ \<Rightarrow> if sql_truthy c then Inl TypeError else Inr None)"

definition parse_data :: "(string \<Rightarrow> json option) \<Rightarrow> row \<Rightarrow> pydict \<Rightarrow> error + pydict" where
  "parse_data jparse item entity =
     ebind (payload_of jparse item) (\<lambda>r.
       Inr (case r of None \<Rightarrow> entity | Some v \<Rightarrow> dset entity (KStr ''data'') v))"

text \<open>\<^verbatim>\<open>delete_data_keys(entity, keys)\<close>, and the same loop written out in
  \<^verbatim>\<open>parse_subtitles\<close>: \<^verbatim>\<open>del entity['data'][k]\<close> where a KeyError is passed over.\<close>

fun delete_data_keys :: "pydict \<Rightarrow> string list \<Rightarrow> error + pydict" where
  "delete_data_keys entity [] = Inr entity"
| "delete_data_keys entity (k # ks) =
     (case map_of entity (KStr ''data'') of
        None \<Rightarrow> delete_data_keys entity ks
      | Some (VDict p) \<Rightarrow>
          delete_data_keys (dset entity (KStr ''data'') (VDict (AList.delete (KStr k) p))) ks
      | Some _ \<Rightarrow> Inl TypeError)"

text \<open>\<^verbatim>\<open>entity['files'][k] = v\<close>, and \<^verbatim>\<open>entity['files'][k].append(x)\<close> on the
  \<^verbatim>\<open>defaultdict(list)\<close>.\<close>

definition set_file :: "pydict \<Rightarrow> string \<Rightarrow> pyval \<Rightarrow> error + pydict" where
  "set_file entity k v =
     ebind (dget entity (KStr ''files'')) (\<lambda>f.
       case f of
         VDict files \<Rightarrow> Inr (dset entity (KStr ''files'') (VDict (dset files (KStr k) v)))
       | _ \<Rightarrow> Inl TypeError)"

definition append_file :: "pydict \<Rightarrow> string \<Rightarrow> pyval \<Rightarrow> error + pydict" where
  "append_file entity k x =
     ebind (dget entity (KStr ''files'')) (\<lambda>f.
       case f of
         VDict files \<Rightarrow>
           (case map_of files (KStr k) of
              None \<Rightarrow> Inr (dset entity (KStr ''files'') (VDict (dset files (KStr k) (VList [x]))))
            | Some (VList xs) \<Rightarrow>
                Inr (dset entity (KStr ''files'') (VDict (dset files (KStr k) (VList (xs @ [x])))))
            | Some _ \<Rightarrow> Inl AttributeError)
       | _ \<Rightarrow> Inl TypeError)"

text \<open>\<^verbatim>\<open>BoxSetStrategy.parse_data\<close>. In \<^verbatim>\<open>entity['children'][uuidFormat(item['ItemId'])] =
  {'path': item['Path']}\<close> the right-hand side is evaluated first.\<close>

fun children_loop :: "pyval list \<Rightarrow> pydict \<Rightarrow> error + pydict" where
  "children_loop [] children = Inr children"
| "children_loop (item # items) children =
     ebind (subscript item ''Path'') (\<lambda>p.
     ebind (subscript item ''ItemId'') (\<lambda>i.
     ebind (uuidFormat i) (\<lambda>u.
       children_loop items (dset children (KStr u) (VDict [(KStr ''path'', p)])))))"

definition boxset_parse_data ::
    "(string \<Rightarrow> json option) \<Rightarrow> row \<Rightarrow> pydict \<Rightarrow> error + pydict" where
  "boxset_parse_data jparse item entity0 =
     ebind (parse_data jparse item entity0) (\<lambda>entity1.
     ebind (parse_trailers entity1) (\<lambda>entity2.
     ebind (get_images item) (\<lambda>images.
     ebind (set_file entity2 ''images'' images) (\<lambda>entity.
     ebind (dget entity (KStr ''data'')) (\<lambda>payload.
     ebind (subscript payload ''LinkedChildren'') (\<lambda>lc.
     ebind (if truthy lc
            then ebind (py_iter lc) (\<lambda>items.
                 ebind (children_loop items []) (\<lambda>children.
                   delete_data_keys (dset entity (KStr ''children'') (VDict children))
                     [''LinkedChildren'']))
            else Inr entity) (\<lambda>entity'.
       delete_data_keys entity' [''Width'', ''Height'', ''IsHD'', ''IsShortcut'', ''IsRoot''])))))))"

text \<open>\<^verbatim>\<open>parse_common_fields\<close>: the classification of one field, the loop over
  \<^verbatim>\<open>self.fields.values()\<close>, then the strategy's \<^verbatim>\<open>parse_data\<close>.\<close>

definition common_field :: "strategy \<Rightarrow> row \<Rightarrow> string \<Rightarrow> error + pyval option" where
  "common_field st item key =
     (if key \<in> set (text_fields st) then ebind (row_get item key) (\<lambda>c. Inr (Some (of_sql c)))
      else if key \<in> set blob_fields then
        ebind (row_get item key) (\<lambda>c. ebind (toUUID c) (\<lambda>u. Inr (Some (opt_val u))))
      else if key \<in> set date_fields then ebind (row_get item key) (\<lambda>c. Inr (Some (of_sql c)))
      else if key \<in> set (list_fields st) then
        ebind (toList item key (CHR ''|'')) (\<lambda>l. Inr (Some (str_list l)))
      else if key \<in> set dict_fields then
        ebind (toDict item key (CHR ''|'')) (\<lambda>d. Inr (Some d))
      else Inr None)"

fun common_loop :: "strategy \<Rightarrow> row \<Rightarrow> string list \<Rightarrow> pydict \<Rightarrow> error + pydict" where
  "common_loop st item [] entity = Inr entity"
| "common_loop st item (key # keys) entity =
     ebind (common_field st item key) (\<lambda>r.
       common_loop st item keys
         (case r of None \<Rightarrow> entity | Some v \<Rightarrow> dset entity (KStr key) v))"

definition parse_common_fields ::
    "(string \<Rightarrow> json option) \<Rightarrow> string list \<Rightarrow> strategy \<Rightarrow> row \<Rightarrow> pydict \<Rightarrow> error + pydict" where
  "parse_common_fields jparse fields st item entity0 =
     ebind (common_loop st item fields entity0) (\<lambda>entity.
       if st = BoxSetStrategy then boxset_parse_data jparse item entity
       else parse_data jparse item entity)"

text \<open>\<^verbatim>\<open>ParseStrategy.parse\<close>, the default: every field is copied; identifiers are decoded
  and a byte string that is not UTF-8 becomes \<^verbatim>\<open>None\<close>.\<close>

definition parse_bytes :: "string \<Rightarrow> pyval" where
  "parse_bytes b = (case decode_utf8 b of Inr s \<Rightarrow> VStr s | Inl _ \<Rightarrow> VNone)"

fun default_loop :: "row \<Rightarrow> string list \<Rightarrow> pydict \<Rightarrow> error + pydict" where
  "default_loop item [] entity = Inr entity"
| "default_loop item (key # keys) entity =
     ebind (row_get item key) (\<lambda>c.
     ebind (if key \<in> set blob_fields then ebind (toUUID c) (\<lambda>u. Inr (opt_val u))
            else case c of SBlob b \<Rightarrow> Inr (parse_bytes b) | _ \<Rightarrow> Inr (of_sql c)) (\<lambda>v.
       default_loop item keys (dset entity (KStr key) v)))"

text \<open>\<^verbatim>\<open>ParseTvStrategy.parse\<close>, shared by series, season and episode.\<close>

definition tv_parse ::
    "(string \<Rightarrow> json option) \<Rightarrow> string list \<Rightarrow> strategy \<Rightarrow> row \<Rightarrow> error + pydict" where
  "tv_parse jparse fields st item =
     ebind (parse_common_fields jparse fields st item []) (\<lambda>entity1.
     ebind (parse_trailers entity1) (\<lambda>entity2.
     ebind (get_images item) (\<lambda>images.
     ebind (set_file entity2 ''images'' images) (\<lambda>entity3.
     ebind (row_get item ''overview'') (\<lambda>ov.
       Inr (dset entity3 (KStr ''overview'') (VDict [(KStr ''en'', of_sql ov)])))))))"

text \<open>\<^verbatim>\<open>ParseTvEpisode\<close>: the video record, then the subtitles.\<close>

fun subtitles_loop :: "pyval list \<Rightarrow> pydict \<Rightarrow> error + pydict" where
  "subtitles_loop [] entity = Inr entity"
| "subtitles_loop (sub # subs) entity =
     ebind (append_file entity ''subtitles'' (VDict [(KStr ''path'', sub)]))
       (subtitles_loop subs)"

definition parse_subtitles :: "pydict \<Rightarrow> error + pydict" where
  "parse_subtitles entity =
     ebind (dget entity (KStr ''data'')) (\<lambda>payload.
     ebind (subscript payload ''SubtitleFiles'') (\<lambda>sf.
     ebind (if truthy sf then ebind (py_iter sf) (\<lambda>subs. subtitles_loop subs entity)
            else Inr entity) (\<lambda>entity'.
       delete_data_keys entity' [''IsHD'', ''Width'', ''Height'', ''Size'', ''SubtitleFiles''])))"

definition dict_get :: "pyval \<Rightarrow> string \<Rightarrow> error + pyval" where
  "dict_get v k = (case v of
       VDict d \<Rightarrow> (case map_of d (KStr k) of None \<Rightarrow> Inr VNone | Some x \<Rightarrow> Inr x)
     | _ \<Rightarrow> Inl AttributeError)"

definition episode_parse ::
    "(string \<Rightarrow> json option) \<Rightarrow> string list \<Rightarrow> row \<Rightarrow> error + pydict" where
  "episode_parse jparse fields item =
     ebind (tv_parse jparse fields ParseTvEpisode item) (\<lambda>entity.
     ebind (dget entity (KStr ''path'')) (\<lambda>path.
     ebind (ebind (dget entity (KStr ''data'')) (\<lambda>p. subscript p ''IsHD'')) (\<lambda>is_hd.
     ebind (ebind (dget entity (KStr ''data'')) (\<lambda>p. dict_get p ''Size'')) (\<lambda>size.
     ebind (ebind (dget entity (KStr ''data'')) (\<lambda>p. subscript p ''Width'')) (\<lambda>width.
     ebind (ebind (dget entity (KStr ''data'')) (\<lambda>p. subscript p ''Height'')) (\<lambda>height.
     ebind (set_file entity ''videos''
              (VList [VDict [(KStr ''path'', path), (KStr ''isHD'', is_hd), (KStr ''size'', size),
                             (KStr ''width'', width), (KStr ''height'', height)]]))
       parse_subtitles))))))"

text \<open>The \<^verbatim>\<open>parse\<close> method of each strategy.\<close>

definition parse ::
    "(string \<Rightarrow> json option) \<Rightarrow> string list \<Rightarrow> strategy \<Rightarrow> row \<Rightarrow> error + pydict" where
  "parse jparse fields st item = (case st of
       ParseStrategy \<Rightarrow> default_loop item fields []
     | BoxSetStrategy \<Rightarrow>
         ebind (get_names item) (\<lambda>names.
           parse_common_fields jparse fields st item [(KStr ''names'', names)])
     | ParsePersonStragegy \<Rightarrow>
         ebind (parse_common_fields jparse fields st item []) (\<lambda>entity.
         ebind (get_names item) (\<lambda>names. Inr (dset entity (KStr ''names'') names)))
     | ParseGenreStrategy \<Rightarrow>
         ebind (get_images item) (\<lambda>images.
         ebind (get_names item) (\<lambda>names.
           parse_common_fields jparse fields st item
             [(KStr ''files'', VDict [(KStr ''images'', images)]), (KStr ''names'', names)]))
     | ParseTvSeries \<Rightarrow> tv_parse jparse fields st item
     | ParseTvSeason \<Rightarrow> tv_parse jparse fields st item
     | ParseTvEpisode \<Rightarrow> episode_parse jparse fields item)"

section \<open>Table serializers and the document\<close>

definition JELLYFIN_TYPES :: "(string \<times> string) list" where
  "JELLYFIN_TYPES =
     [(''Emby.Server.Implementations.Playlists.PlaylistsFolder'', ''folder-playlist''),
      (''MediaBrowser.Controller.Channels.Channel'', ''channel''),
      (''MediaBrowser.Controller.Entities.AggregateFolder'', ''folder-aggregate''),
      (''MediaBrowser.Controller.Entities.Audio.Audio'', ''audio''),
      (''MediaBrowser.Controller.Entities.Audio.MusicAlbum'', ''music-album''),
      (''MediaBrowser.Controller.Entities.Audio.MusicArtist'', ''music-artist''),
      (''MediaBrowser.Controller.Entities.Audio.MusicGenre'', ''genre-music''),
      (''MediaBrowser.Controller.Entities.CollectionFolder'', ''folder-collection''),
      (''MediaBrowser.Controller.Entities.Folder'', ''folder''),
      (''MediaBrowser.Controller.Entities.Genre'', ''genre''),
      (''MediaBrowser.Controller.Entities.Movies.BoxSet'', ''box-set''),
      (''MediaBrowser.Controller.Entities.Movies.Movie'', ''movie''),
      (''MediaBrowser.Controller.Entities.Person'', ''person''),
      (''MediaBrowser.Controller.Entities.Studio'', ''studio''),
      (''MediaBrowser.Controller.Entities.TV.Episode'', ''tv-episode''),
      (''MediaBrowser.Controller.Entities.TV.Season'', ''tv-season''),
      (''MediaBrowser.Controller.Entities.TV.Series'', ''tv-series''),
      (''MediaBrowser.Controller.Entities.UserRootFolder'', ''folder-root''),
      (''MediaBrowser.Controller.Entities.UserView'', ''view-user''),
      (''MediaBrowser.Controller.Entities.Video'', ''video''),
      (''MediaBrowser.Controller.Playlists.Playlist'', ''playlist'')]"

text \<open>The values of \<^verbatim>\<open>SQLITE_FIELDS_MAPPER\<close>, in the order of the dictionary: the names of
  the columns of an item row.\<close>

definition SQLITE_FIELDS :: "string list" where
  "SQLITE_FIELDS =
     [''album'', ''albumArtists'', ''artists'', ''audio'', ''channelId'', ''cleanName'',
      ''communityRating'', ''criticRating'', ''customRating'', ''data'', ''dateCreated'',
      ''dateLastMediaAdded'', ''dateLastRefreshed'', ''dateLastSaved'', ''dateModified'',
      ''endDate'', ''episodeTitle'', ''externalId'', ''externalSeriesId'', ''externalServiceId'',
      ''extraIds'', ''extraType'', ''forcedSortName'', ''genres'', ''height'', ''images'',
      ''indexNumber'', ''inheritedParentalRatingValue'', ''isFolder'', ''isInMixedFolder'',
      ''isLocked'', ''isMovie'', ''isRepeat'', ''isSeries'', ''isVirtualItem'', ''lockedFields'',
      ''mediaType'', ''name'', ''officialRating'', ''originalTitle'', ''overview'', ''ownerId'',
      ''parentIndexNumber'', ''path'', ''preferredMetadataCountryCode'',
      ''preferredMetadataLanguage'', ''premiereDate'', ''uniqueKey'', ''primaryVersionId'',
      ''productionLocations'', ''productionYear'', ''externalIds'', ''runTimeTicks'', ''seasonId'',
      ''seasonName'', ''seriesId'', ''seriesName'', ''seriesPresentationUniqueKey'', ''showId'',
      ''size'', ''sortName'', ''startDate'', ''studios'', ''tagline'', ''tags'', ''topParentId'',
      ''totalBitrate'', ''trailerTypes'', ''type'', ''unratedType'', ''userDataKey'', ''width'',
      ''parentId'', ''guid'']"

text \<open>\<^verbatim>\<open>response[k].append(x)\<close> on a \<^verbatim>\<open>defaultdict(list)\<close>, and
  \<^verbatim>\<open>response[t][k] = v\<close> on a \<^verbatim>\<open>defaultdict(dict)\<close>.\<close>

definition group_append :: "pydict \<Rightarrow> pykey \<Rightarrow> pyval \<Rightarrow> pydict" where
  "group_append response k x =
     (case map_of response k of
        Some (VList xs) \<Rightarrow> dset response k (VList (xs @ [x]))
      | _ \<Rightarrow> dset response k (VList [x]))"

definition group_set :: "pydict \<Rightarrow> pykey \<Rightarrow> pykey \<Rightarrow> pyval \<Rightarrow> pydict" where
  "group_set response t k v =
     (case map_of response t of
        Some (VDict d) \<Rightarrow> dset response t (VDict (dset d k v))
      | _ \<Rightarrow> dset response t (VDict [(k, v)]))"

text \<open>\<^verbatim>\<open>AncestorTable.serialize\<close>: the list is looked up under the item's identifier before
  the ancestor's identifier is decoded; the result goes through the wire format.\<close>

fun ancestors_loop :: "row list \<Rightarrow> pydict \<Rightarrow> error + pydict" where
  "ancestors_loop [] response = Inr response"
| "ancestors_loop (item # data) response =
     ebind (ebind (row_get item ''ItemId'') toUUID) (\<lambda>i.
     ebind (ebind (row_get item ''AncestorId'') toUUID) (\<lambda>a.
       ancestors_loop data (group_append response (opt_key i) (opt_val a))))"

definition ancestors_serialize :: "row list \<Rightarrow> error + pyval" where
  "ancestors_serialize data = ebind (ancestors_loop data []) (\<lambda>response. redump (VDict response))"

text \<open>\<^verbatim>\<open>ItemValues.serialize\<close>.\<close>

fun values_loop :: "row list \<Rightarrow> pydict \<Rightarrow> error + pydict" where
  "values_loop [] response = Inr response"
| "values_loop (item # data) response =
     ebind (ebind (row_get item ''ItemId'') toUUID) (\<lambda>i.
     ebind (row_get item ''Type'') (\<lambda>t.
     ebind (row_get item ''Value'') (\<lambda>v.
     ebind (row_get item ''CleanValue'') (\<lambda>c.
       values_loop data
         (group_append response (opt_key i)
            (VDict [(KStr ''type'', of_sql t), (KStr ''value'', of_sql v),
                    (KStr ''formatted'', of_sql c)]))))))"

definition values_serialize :: "row list \<Rightarrow> error + pyval" where
  "values_serialize data = ebind (values_loop data []) (\<lambda>response. Inr (VDict response))"

text \<open>\<^verbatim>\<open>PeopleTable.serialize\<close>.\<close>

fun people_loop :: "row list \<Rightarrow> pydict \<Rightarrow> error + pydict" where
  "people_loop [] response = Inr response"
| "people_loop (item # data) response =
     ebind (ebind (row_get item ''ItemId'') toUUID) (\<lambda>i.
     ebind (row_get item ''Name'') (\<lambda>n.
     ebind (row_get item ''PersonType'') (\<lambda>t.
     ebind (row_get item ''Role'') (\<lambda>r.
     ebind (row_get item ''ListOrder'') (\<lambda>ord.
       people_loop data
         (group_append response (opt_key i)
            (VDict [(KStr ''name'', of_sql n), (KStr ''type'', of_sql t),
                    (KStr ''role'', of_sql r), (KStr ''order'', of_sql ord)])))))))"

definition people_serialize :: "row list \<Rightarrow> error + pyval" where
  "people_serialize data = ebind (people_loop data []) (\<lambda>response. Inr (VDict response))"

text \<open>\<^verbatim>\<open>Items.serialize\<close>. In \<^verbatim>\<open>response[item_type][toUUID(item['guid'])] =
  parser.parse(item)\<close> the row is parsed before its identifier is decoded. A type that is
  not a key of \<^verbatim>\<open>JELLYFIN_TYPES\<close> raises KeyError.\<close>

fun items_loop ::
    "(string \<Rightarrow> json option) \<Rightarrow> string list \<Rightarrow> row list \<Rightarrow> pydict \<Rightarrow> error + pydict" where
  "items_loop jparse fields [] response = Inr response"
| "items_loop jparse fields (item # data) response =
     ebind (row_get item ''type'') (\<lambda>t.
     ebind (case t of
              SText name \<Rightarrow> (case map_of JELLYFIN_TYPES name of
                               None \<Rightarrow> Inl KeyError | Some tag \<Rightarrow> Inr tag)
            | _ \<Rightarrow> Inl KeyError) (\<lambda>item_type.
     ebind (parse jparse fields (get_strategy item_type) item) (\<lambda>entity.
     ebind (ebind (row_get item ''guid'') toUUID) (\<lambda>g.
       items_loop jparse fields data
         (group_set response (KStr item_type) (opt_key g) (VDict entity))))))"

definition items_serialize :: "(string \<Rightarrow> json option) \<Rightarrow> row list \<Rightarrow> error + pyval" where
  "items_serialize jparse data =
     ebind (items_loop jparse SQLITE_FIELDS data []) (\<lambda>response. Inr (VDict response))"

text \<open>The rows that the four queries return, and the document: the sections in the order
  of \<^verbatim>\<open>serializers\<close>, then \<^verbatim>\<open>DATA = json.loads(json.dumps(DATA))\<close>.\<close>

record database =
  ItemValues :: "row list"
  TypedBaseItems :: "row list"
  AncestorIds :: "row list"
  People :: "row list"

definition sections :: "(string \<Rightarrow> json option) \<Rightarrow> database \<Rightarrow> error + pyval" where
  "sections jparse db =
     ebind (values_serialize (ItemValues db)) (\<lambda>eav.
     ebind (items_serialize jparse (TypedBaseItems db)) (\<lambda>items.
     ebind (ancestors_serialize (AncestorIds db)) (\<lambda>parents.
     ebind (people_serialize (People db)) (\<lambda>people.
       Inr (VDict [(KStr ''eav'', eav), (KStr ''items'', items),
                   (KStr ''parents'', parents), (KStr ''people'', people)])))))"

definition document :: "(string \<Rightarrow> json option) \<Rightarrow> database \<Rightarrow> error + pyval" where
  "document jparse db = ebind (sections jparse db) redump"

section \<open>Reference forms for the claims\<close>

text \<open>What the query hands over for a binary column: SQLite's \<^verbatim>\<open>quote()\<close> writes a BLOB as
  \<^verbatim>\<open>X'...'\<close> with two upper-case hexadecimal digits for each byte. The canonical string of
  the same bytes has the digits in lower case, grouped 8-4-4-4-12.\<close>

definition hex_upper :: "nat \<Rightarrow> char" where
  "hex_upper d = ''0123456789ABCDEF'' ! d"

definition quote_blob :: "string \<Rightarrow> string" where
  "quote_blob b =
     CHR ''X'' # CHR 0x27 #
       concat (map (\<lambda>c. [hex_upper (of_char c div 16), hex_upper (of_char c mod 16)]) b)
       @ [CHR 0x27]"

definition canonical_uuid :: "string \<Rightarrow> string" where
  "canonical_uuid b =
     hyphenate (concat (map (\<lambda>c. [hex_lower (of_char c div 16), hex_lower (of_char c mod 16)]) b))"

text \<open>Hexadecimal digit strings: their digits, their value, their lower-case form, and the
  digits of a number at a fixed width.\<close>

definition hex_digit :: "char \<Rightarrow> bool" where
  "hex_digit c = (digit_val 16 c \<noteq> None)"

definition lower_hex :: "string \<Rightarrow> string" where
  "lower_hex s = map (\<lambda>c. hex_lower (the (digit_val 16 c))) s"

definition hex_value :: "string \<Rightarrow> nat" where
  "hex_value s = foldl (\<lambda>a c. a * 16 + the (digit_val 16 c)) 0 s"

fun hexn :: "nat \<Rightarrow> nat \<Rightarrow> string" where
  "hexn 0 n = []"
| "hexn (Suc k) n = hexn k (n div 16) @ [hex_lower (n mod 16)]"

text \<open>A canonical identifier: 36 characters, hyphens at 8, 13, 18 and 23, lower-case
  hexadecimal digits elsewhere.\<close>

definition lower_hex_char :: "char \<Rightarrow> bool" where
  "lower_hex_char c = (c \<in> set ''0123456789abcdef'')"

definition is_canonical :: "string \<Rightarrow> bool" where
  "is_canonical s =
     (length s = 36 \<and> list_all lower_hex_char (take 8 s) \<and> s ! 8 = CHR ''-''
      \<and> list_all lower_hex_char (take 4 (drop 9 s)) \<and> s ! 13 = CHR ''-''
      \<and> list_all lower_hex_char (take 4 (drop 14 s)) \<and> s ! 18 = CHR ''-''
      \<and> list_all lower_hex_char (take 4 (drop 19 s)) \<and> s ! 23 = CHR ''-''
      \<and> list_all lower_hex_char (drop 24 s))"






text \<open>The fields that \<^verbatim>\<open>parse_common_fields\<close> copies for a strategy; the shape of the
  \<^verbatim>\<open>files\<close> container that \<^verbatim>\<open>parse_trailers\<close> leaves; an entry of an entity's \<^verbatim>\<open>files\<close> and
  of its residual payload \<^verbatim>\<open>data\<close>.\<close>

definition classified :: "strategy \<Rightarrow> string \<Rightarrow> bool" where
  "classified st k = (k \<in> set (text_fields st) \<or> k \<in> set blob_fields \<or> k \<in> set date_fields
      \<or> k \<in> set (list_fields st) \<or> k \<in> set dict_fields)"

definition trailer_files :: "pydict \<Rightarrow> bool" where
  "trailer_files f = (f = [] \<or> (\<exists>ts. f = [(KStr ''trailers'', VList ts)]))"

definition file_entry :: "pydict \<Rightarrow> string \<Rightarrow> pyval option" where
  "file_entry e k =
     (case map_of e (KStr ''files'') of Some (VDict f) \<Rightarrow> map_of f (KStr k) | _ \<Rightarrow> None)"

definition data_entry :: "pydict \<Rightarrow> string \<Rightarrow> pyval option" where
  "data_entry e k =
     (case map_of e (KStr ''data'') of Some (VDict p) \<Rightarrow> map_of p (KStr k) | _ \<Rightarrow> None)"


section \<open>The identifier codec on quoted literals\<close>

lemma lt16_cases: "d < 16 \<Longrightarrow> d \<in> {0,1,2,3,4,5,6,7,8,9,10,11,12,13,14,15::nat}"
  by (simp only: insert_iff empty_iff) arith

lemma digit_val_hex_upper: "d < 16 \<Longrightarrow> digit_val 16 (hex_upper d) = Some d"
  by (drule lt16_cases) (auto simp: digit_val_def hex_upper_def)

lemma digit_val_lt: "digit_val b c = Some d \<Longrightarrow> d < b"
  by (auto simp: digit_val_def Let_def split: if_splits option.splits)

lemma hex_digit_not_special:
  "hex_digit c \<Longrightarrow> c \<notin> set ''u-{}+_xX'' \<and> \<not> str_space c"
  by (auto simp: hex_digit_def digit_val_def str_space_def Let_def split: if_splits)

lemma remove_sub_absent: "old \<noteq> [] \<Longrightarrow> hd old \<notin> set s \<Longrightarrow> remove_sub old s = s"
proof (induction s)
  case Nil
  then show ?case by simp
next
  case (Cons c cs)
  from Cons.prems have "take (length old) (c # cs) \<noteq> old"
    by (cases old) auto
  with Cons show ?case by simp
qed

lemma strip_with_id: "s \<noteq> [] \<Longrightarrow> \<not> P (hd s) \<Longrightarrow> \<not> P (last s) \<Longrightarrow> strip_with P s = s"
proof -
  assume a: "s \<noteq> []" "\<not> P (hd s)" "\<not> P (last s)"
  have 1: "dropWhile P s = s" using a by (simp add: dropWhile_eq_self_iff)
  have "hd (rev s) = last s" using a(1) by (simp add: hd_rev)
  then have 2: "dropWhile P (rev s) = rev s" using a by (simp add: dropWhile_eq_self_iff)
  show ?thesis by (simp add: strip_with_def 1 2)
qed

lemma parse_digits_hex:
  "\<forall>c\<in>set s. hex_digit c \<Longrightarrow>
   parse_digits 16 acc s = Some (foldl (\<lambda>a c. a * 16 + the (digit_val 16 c)) acc s)"
proof (induction s arbitrary: acc)
  case Nil
  then show ?case by simp
next
  case (Cons c cs)
  then have c: "hex_digit c" and "c \<noteq> CHR ''_''"
    using hex_digit_not_special [of c] by auto
  then obtain d where d: "digit_val 16 c = Some d" by (auto simp: hex_digit_def)
  show ?case
  proof (cases cs)
    case Nil
    then show ?thesis using d by simp
  next
    case (Cons c' cs')
    then show ?thesis using d \<open>c \<noteq> CHR ''_''\<close> Cons.IH [of "acc * 16 + d"] Cons.prems by simp
  qed
qed

lemma parse_number_hex:
  "s \<noteq> [] \<Longrightarrow> \<forall>c\<in>set s. hex_digit c \<Longrightarrow> parse_number 16 s = Some (hex_value s)"
  by (cases s) (auto simp: parse_number_def hex_value_def hex_digit_def parse_digits_hex)

lemma py_int_hex:
  assumes "length s = 32" and "\<forall>c\<in>set s. hex_digit c"
  shows "py_int 16 s = Inr (int (hex_value s))"
proof -
  from assms(1) obtain a b r where s: "s = a # b # r"
    by (cases s; cases "tl s") auto
  have ne: "s \<noteq> []" using s by simp
  have "last s \<in> set s" using ne by simp
  then have "hex_digit a" "hex_digit b" "hex_digit (last s)" using assms(2) s
    by (auto simp del: last.simps)
  then have a: "a \<noteq> CHR ''-''" "a \<noteq> CHR ''+''" "\<not> str_space a" "\<not> str_space (last s)"
    and b: "b \<noteq> CHR ''x''" "b \<noteq> CHR ''X''"
    using hex_digit_not_special [of a] hex_digit_not_special [of b]
      hex_digit_not_special [of "last s"] by auto
  have st: "strip_with str_space s = s"
    using strip_with_id [of s str_space] a s by simp
  have pf: "strip_prefix16 16 s = s" using b s by (simp add: strip_prefix16_def)
  show ?thesis
    unfolding py_int_def st Let_def
    using a s pf parse_number_hex [OF ne assms(2)] by simp
qed

lemma hexn_zero: "hexn k 0 = replicate k (CHR ''0'')"
  by (induction k) (auto simp: hex_lower_def replicate_append_same)

lemma length_to_hex: "0 < k \<Longrightarrow> n < 16 ^ k \<Longrightarrow> length (to_hex n) \<le> k"
proof (induction n arbitrary: k rule: to_hex.induct)
  case (1 n)
  show ?case
  proof (cases "n < 16")
    case True
    then show ?thesis using 1 by (simp add: to_hex.simps [of n])
  next
    case False
    then obtain j where k: "k = Suc j" and j: "0 < j" using 1(2,3)
      by (cases k; cases "k - 1") auto
    have "n div 16 < 16 ^ j" using 1(3) k by (simp add: less_mult_imp_div_less mult.commute)
    with 1(1) [OF False j] have "length (to_hex (n div 16)) \<le> j" by simp
    then show ?thesis using False k by (simp add: to_hex.simps [of n])
  qed
qed

lemma zfill_to_hex: "0 < k \<Longrightarrow> n < 16 ^ k \<Longrightarrow> zfill k (to_hex n) = hexn k n"
proof (induction n arbitrary: k rule: to_hex.induct)
  case (1 n)
  from 1(2) obtain j where k: "k = Suc j" by (cases k) auto
  show ?case
  proof (cases "n < 16")
    case True
    then show ?thesis using k by (simp add: to_hex.simps [of n] zfill_def hexn_zero)
  next
    case False
    then have j: "0 < j" using 1(3) k by (cases j) auto
    have lt: "n div 16 < 16 ^ j" using 1(3) k by (simp add: less_mult_imp_div_less mult.commute)
    have len: "length (to_hex (n div 16)) \<le> j" by (rule length_to_hex [OF j lt])
    have "zfill j (to_hex (n div 16)) = hexn j (n div 16)" by (rule 1(1) [OF False j lt])
    then show ?thesis using False k len
      by (simp add: to_hex.simps [of n] zfill_def Suc_diff_le)
  qed
qed

lemma hex_value_snoc:
  "hex_value (s @ [c]) = hex_value s * 16 + the (digit_val 16 c)"
  by (simp add: hex_value_def)

lemma hex_value_bound: "\<forall>c\<in>set s. hex_digit c \<Longrightarrow> hex_value s < 16 ^ length s"
proof (induction s rule: rev_induct)
  case Nil
  then show ?case by (simp add: hex_value_def)
next
  case (snoc c s)
  then obtain d where d: "digit_val 16 c = Some d" by (auto simp: hex_digit_def)
  then have "d < 16" by (rule digit_val_lt)
  moreover have "hex_value s < 16 ^ length s" using snoc by simp
  ultimately show ?case using d by (simp add: hex_value_snoc)
qed

lemma hexn_hex_value: "\<forall>c\<in>set s. hex_digit c \<Longrightarrow> hexn (length s) (hex_value s) = lower_hex s"
proof (induction s rule: rev_induct)
  case Nil
  then show ?case by (simp add: lower_hex_def)
next
  case (snoc c s)
  then obtain d where d: "digit_val 16 c = Some d" by (auto simp: hex_digit_def)
  then have "d < 16" by (rule digit_val_lt)
  then show ?case using d snoc by (simp add: hex_value_snoc lower_hex_def)
qed

lemma uuid_of_hex_digits:
  assumes "length s = 32" and "\<forall>c\<in>set s. hex_digit c"
  shows "uuid_of_hex s = Inr (hex_value s)"
proof -
  have ne: "s \<noteq> []" using assms(1) by auto
  have nin: "CHR ''u'' \<notin> set s" "CHR ''-'' \<notin> set s"
    using assms(2) hex_digit_not_special by auto
  have "hex_digit (hd s)" "hex_digit (last s)" using assms(2) ne by auto
  then have br: "\<not> (hd s = CHR ''{'' \<or> hd s = CHR ''}'')" "\<not> (last s = CHR ''{'' \<or> last s = CHR ''}'')"
    using hex_digit_not_special [of "hd s"] hex_digit_not_special [of "last s"] by auto
  have r1: "remove_sub ''urn:'' s = s" "remove_sub ''uuid:'' s = s" "remove_sub ''-'' s = s"
    using nin by (simp_all add: remove_sub_absent)
  have r2: "strip_with (\<lambda>c. c = CHR ''{'' \<or> c = CHR ''}'') s = s"
    using strip_with_id [of s "\<lambda>c. c = CHR ''{'' \<or> c = CHR ''}''"] ne br by simp
  have "hex_value s < 16 ^ 32" using hex_value_bound [OF assms(2)] assms(1) by simp
  then have "int (hex_value s) < 2 ^ 128" by simp
  then show ?thesis
    unfolding uuid_of_hex_def Let_def r1 r2
    using assms(1) py_int_hex [OF assms] by (simp add: ebind_def)
qed

lemma uuid_str_hex:
  assumes "length s = 32" and "\<forall>c\<in>set s. hex_digit c"
  shows "uuid_str (hex_value s) = hyphenate (lower_hex s)"
proof -
  have "hex_value s < 16 ^ 32" using hex_value_bound [OF assms(2)] assms(1) by simp
  then have "zfill 32 (to_hex (hex_value s)) = hexn 32 (hex_value s)"
    by (simp add: zfill_to_hex)
  also have "\<dots> = lower_hex s" using hexn_hex_value [OF assms(2)] assms(1) by simp
  finally show ?thesis by (simp add: uuid_str_def)
qed

lemma uuidFormat_digits:
  "length s = 32 \<Longrightarrow> \<forall>c\<in>set s. hex_digit c \<Longrightarrow> uuidFormat (VStr s) = Inr (hyphenate (lower_hex s))"
  by (simp add: uuidFormat_def uuid_of_hex_digits uuid_str_hex ebind_def)

lemma toUUID_framed:
  assumes "length s = 32" and "\<forall>c\<in>set s. hex_digit c"
  shows "toUUID (SText (c1 # c2 # s @ [c3])) = Inr (Some (hyphenate (lower_hex s)))"
proof -
  have "c1 # c2 # s @ [c3] \<noteq> ''NULL''" using assms(1) by auto
  moreover have "butlast (drop 2 (c1 # c2 # s @ [c3])) = s" by simp
  ultimately show ?thesis
    using assms(1) uuidFormat_digits [OF assms]
    by (simp add: toUUID_def sql_truthy_def truthy_def of_sql_def ebind_def)
qed

lemma of_char_nibbles: "(of_char c :: nat) div 16 < 16" "(of_char c :: nat) mod 16 < 16"
proof -
  have "(of_char c :: nat) < 256" by simp
  then show "(of_char c :: nat) div 16 < 16" by (simp add: less_mult_imp_div_less)
  show "(of_char c :: nat) mod 16 < 16" by simp
qed

lemma hex_lower_the_upper: "d < 16 \<Longrightarrow> hex_lower (the (digit_val 16 (hex_upper d))) = hex_lower d"
  by (simp add: digit_val_hex_upper)

lemma quote_digits:
  "\<forall>c \<in> set (concat (map (\<lambda>c. [hex_upper (of_char c div 16), hex_upper (of_char c mod 16)]) b)). hex_digit c"
  by (auto simp: hex_digit_def digit_val_hex_upper of_char_nibbles)

lemma quote_length:
  "length (concat (map (\<lambda>c. [hex_upper (of_char c div 16), hex_upper (of_char c mod 16)]) b)) = 2 * length b"
  by (induction b) auto

lemma quote_lower:
  "lower_hex (concat (map (\<lambda>c. [hex_upper (of_char c div 16), hex_upper (of_char c mod 16)]) b))
     = concat (map (\<lambda>c. [hex_lower (of_char c div 16), hex_lower (of_char c mod 16)]) b)"
  by (induction b) (auto simp: lower_hex_def digit_val_hex_upper of_char_nibbles)

lemma toUUID_quote_blob:
  "length b = 16 \<Longrightarrow> toUUID (SText (quote_blob b)) = Inr (Some (canonical_uuid b))"
  unfolding quote_blob_def canonical_uuid_def
  by (subst toUUID_framed) (simp_all add: quote_digits quote_length quote_lower)

text \<open>
  Claim C4 (as amended). \<^verbatim>\<open>toUUID\<close> returns \<^verbatim>\<open>None\<close>, without raising, for a null cell, for the
  text \<^verbatim>\<open>NULL\<close> and for every text shorter than four characters; and for every value of 16
  bytes, handed over as \<^verbatim>\<open>quote()\<close> writes it, it returns the canonical lower-case hyphenated
  8-4-4-4-12 string of those bytes.
\<close>

theorem toUUID_codec:
  "toUUID SNull = Inr None \<and> toUUID (SText ''NULL'') = Inr None \<and>
   (length s < 4 \<longrightarrow> toUUID (SText s) = Inr None) \<and>
   (length b = 16 \<longrightarrow> toUUID (SText (quote_blob b)) = Inr (Some (canonical_uuid b)))"
proof -
  have "toUUID SNull = Inr None" "toUUID (SText ''NULL'') = Inr None"
    by (simp_all add: toUUID_def sql_truthy_def truthy_def of_sql_def)
  moreover have "length s < 4 \<longrightarrow> toUUID (SText s) = Inr None"
    by (auto simp: toUUID_def sql_truthy_def truthy_def of_sql_def)
  ultimately show ?thesis using toUUID_quote_blob by blast
qed

theorem toUUID_codec_witness:
  "length ''X12'' < 4 \<and> toUUID (SText ''X12'') = Inr None \<and>
   length ''0123456789abcdef'' = 16 \<and>
   toUUID (SText (quote_blob ''0123456789abcdef''))
     = Inr (Some ''30313233-3435-3637-3839-616263646566'')"
proof -
  have c: "canonical_uuid ''0123456789abcdef'' = ''30313233-3435-3637-3839-616263646566''"
    by code_simp
  show ?thesis
    using toUUID_codec [of "''X12''" "''0123456789abcdef''"] by (simp add: c)
qed

text \<open>
  Claim C4 as stated also promises that every malformed identifier degrades to an absent
  result. The quoted form of a BLOB of two bytes, \<^verbatim>\<open>X'6162'\<close>, is at least four characters
  long; \<^verbatim>\<open>uuid.UUID\<close> rejects the four digits left and \<^verbatim>\<open>toUUID\<close> raises ValueError.
\<close>

theorem toUUID_short_blob_raises:
  "toUUID (SText (quote_blob ''ab'')) = Inl ValueError"
  by code_simp

section \<open>Errors and dictionaries\<close>

lemma ebind_Inr [simp]: "ebind (Inr x) f = f x"
  by (simp add: ebind_def)

lemma ebind_Inl [simp]: "ebind (Inl e) f = Inl e"
  by (simp add: ebind_def)

lemma ebind_eq_Inr: "ebind m f = Inr y \<longleftrightarrow> (\<exists>x. m = Inr x \<and> f x = Inr y)"
  by (cases m) auto

lemma map_of_dset: "map_of (dset d k v) k' = (if k' = k then Some v else map_of d k')"
  by (simp add: dset_def update_conv')

lemma map_of_delete: "map_of (AList.delete k d) k' = (if k' = k then None else map_of d k')"
  by (simp add: delete_conv')

lemma emap_eq_Inr: "emap f xs = Inr ys \<longleftrightarrow> map f xs = map Inr ys"
proof (induction xs arbitrary: ys)
  case Nil
  then show ?case by auto
next
  case (Cons x xs)
  show ?case
  proof (cases "f x")
    case (Inl e)
    then show ?thesis by (cases ys) auto
  next
    case (Inr y)
    then show ?thesis using Cons.IH
      by (cases ys) (auto simp: ebind_eq_Inr)
  qed
qed

section \<open>The image descriptor decoder\<close>

lemma split_on_nonempty: "split_on sep s \<noteq> []"
  by (induction s) (auto split: list.splits)

lemma hd_split_on: "hd (split_on sep s) = takeWhile (\<lambda>c. c \<noteq> sep) s"
  by (induction s) (auto split: list.splits simp: split_on_nonempty)





section \<open>Fields, trailers and payload keys\<close>

lemma dset_dset: "dset (dset d k v) k w = dset d k w"
  by (induction d) (auto simp: dset_def)

lemma common_field_unclassified: "\<not> classified st k \<Longrightarrow> common_field st item k = Inr None"
  by (simp add: classified_def common_field_def)

lemma common_field_classified: "common_field st item k = Inr (Some v) \<Longrightarrow> classified st k"
  by (auto simp: classified_def common_field_def split: if_splits)

lemma common_loop_fields_ok:
  "common_loop st item keys e = Inr e' \<Longrightarrow> k \<in> set keys \<Longrightarrow> \<exists>r. common_field st item k = Inr r"
  by (induction keys arbitrary: e) (auto simp: ebind_eq_Inr)

lemma common_loop_lookup:
  "common_loop st item keys e = Inr e' \<Longrightarrow>
   map_of e' (KStr k) =
     (case (if k \<in> set keys then common_field st item k else Inr None) of
        Inr (Some v) \<Rightarrow> Some v | _ \<Rightarrow> map_of e (KStr k))"
proof (induction keys arbitrary: e)
  case Nil
  then show ?case by simp
next
  case (Cons key keys)
  from Cons.prems obtain r where r: "common_field st item key = Inr r"
    and loop: "common_loop st item keys (case r of None \<Rightarrow> e | Some v \<Rightarrow> dset e (KStr key) v) = Inr e'"
    by (auto simp: ebind_eq_Inr)
  note IH = Cons.IH [OF loop]
  show ?case
  proof (cases "k \<in> set keys")
    case True
    then obtain r' where "common_field st item k = Inr r'"
      using common_loop_fields_ok [OF loop] by blast
    then show ?thesis using IH True r
      by (cases r'; cases r) (auto simp: map_of_dset)
  next
    case False
    then show ?thesis using IH r
      by (cases r) (auto simp: map_of_dset)
  qed
qed

lemma common_loop_unclassified:
  "common_loop st item keys e = Inr e' \<Longrightarrow> \<not> classified st k \<Longrightarrow> map_of e' (KStr k) = map_of e (KStr k)"
  by (simp add: common_loop_lookup common_field_unclassified)

lemma unclassified_names [simp]:
  "\<not> classified st ''files''" "\<not> classified st ''data''" "\<not> classified st ''names''"
  "\<not> classified st ''children''" "\<not> classified st ''overview''"
  by (cases st; simp add: classified_def blob_fields_def date_fields_def dict_fields_def)+

lemma parse_data_lookup:
  "parse_data jparse item e = Inr e' \<Longrightarrow> k \<noteq> KStr ''data'' \<Longrightarrow> map_of e' k = map_of e k"
  by (auto simp: parse_data_def ebind_eq_Inr map_of_dset split: option.splits)

lemma parse_data_payload:
  "parse_data jparse item e = Inr e' \<Longrightarrow>
   \<exists>r. payload_of jparse item = Inr r \<and>
       map_of e' (KStr ''data'') = (case r of None \<Rightarrow> map_of e (KStr ''data'') | Some v \<Rightarrow> Some v)"
proof -
  assume a: "parse_data jparse item e = Inr e'"
  then obtain r where r: "payload_of jparse item = Inr r"
    and e': "e' = (case r of None \<Rightarrow> e | Some v \<Rightarrow> dset e (KStr ''data'') v)"
    by (auto simp: parse_data_def ebind_eq_Inr)
  show ?thesis using r e' by (cases r) (auto simp: map_of_dset)
qed

lemma trailers_loop_files:
  "trailer_files f \<Longrightarrow> trailers_loop items f = (f', r) \<Longrightarrow> trailer_files f'"
proof (induction items arbitrary: f)
  case Nil
  then show ?case by simp
next
  case (Cons item items)
  let ?t = "case map_of f (KStr ''trailers'') of None \<Rightarrow> dset f (KStr ''trailers'') (VList []) | Some _ \<Rightarrow> f"
  from Cons.prems(1) obtain ts where t: "?t = [(KStr ''trailers'', VList ts)]"
    by (auto simp: trailer_files_def dset_def)
  show ?case
  proof (cases "subscript item ''Url''")
    case (Inl e)
    then have "f' = ?t" using Cons.prems(2) by (simp add: Let_def)
    then show ?thesis using t by (simp add: trailer_files_def)
  next
    case (Inr url)
    have "trailer_files (dset ?t (KStr ''trailers'') (VList (ts @ [VDict [(KStr ''remote'', VBool True), (KStr ''url'', url)]])))"
      by (simp add: t trailer_files_def dset_def)
    then show ?thesis using Cons.prems(2) Inr t Cons.IH
      by (auto simp: Let_def)
  qed
qed

lemma hasattr_files [simp]: "\<not> hasattr_dict ''files''"
  by (simp add: hasattr_dict_def dict_attributes_def)

lemma parse_trailers_result:
  assumes "parse_trailers d = Inr d'"
  shows "(\<exists>f. map_of d' (KStr ''files'') = Some (VDict f) \<and> trailer_files f)
    \<and> (\<forall>k. k \<noteq> KStr ''files'' \<longrightarrow> k \<noteq> KStr ''data'' \<longrightarrow> map_of d' k = map_of d k)
    \<and> (map_of d' (KStr ''data'') = map_of d (KStr ''data'')
        \<or> (\<exists>p. map_of d (KStr ''data'') = Some (VDict p)
              \<and> map_of d' (KStr ''data'') = Some (VDict (AList.delete (KStr ''RemoteTrailers'') p))))"
proof -
  let ?data = "dset d (KStr ''files'') (VDict [])"
  have base: "map_of ?data (KStr ''files'') = Some (VDict [])" "trailer_files []"
    "\<And>k. k \<noteq> KStr ''files'' \<Longrightarrow> map_of ?data k = map_of d k"
    by (simp_all add: map_of_dset trailer_files_def)
  show ?thesis
  proof (cases "ebind (dget ?data (KStr ''data'')) (\<lambda>payload.
              ebind (subscript payload ''RemoteTrailers'') (\<lambda>rt.
              ebind (py_iter rt) (\<lambda>items. Inr (payload, items))))")
    case (Inl e)
    then have "d' = ?data" using assms by (auto simp: parse_trailers_def split: if_splits)
    then show ?thesis using base by auto
  next
    case (Inr pi)
    obtain payload items where pi: "pi = (payload, items)" by (cases pi)
    from Inr pi obtain p where p: "payload = VDict p" "map_of d (KStr ''data'') = Some (VDict p)"
      by (auto simp: ebind_eq_Inr dget_def subscript_def map_of_dset split: option.splits pyval.splits)
    obtain f' r where tl: "trailers_loop items [] = (f', r)" by (cases "trailers_loop items []")
    have tf: "trailer_files f'" using trailers_loop_files [OF base(2) tl] .
    have files: "(if items = [] then Inr (VDict []) else dget ?data (KStr ''files'')) = Inr (VDict [])"
      by (simp add: dget_def map_of_dset)
    have items_nil: "items = [] \<Longrightarrow> f' = []" using tl by auto
    show ?thesis
    proof (cases r)
      case None
      then have "d' = dset (if items = [] then ?data else dset ?data (KStr ''files'') (VDict f'))
                        (KStr ''data'') (VDict (AList.delete (KStr ''RemoteTrailers'') p))"
        using assms Inr pi p tl files
        by (cases "items = []") (auto simp: parse_trailers_def Let_def)
      then show ?thesis using tf p items_nil by (auto simp: map_of_dset)
    next
      case (Some e)
      then have "d' = dset ?data (KStr ''files'') (VDict f')"
        using assms Inr pi p tl files by (auto simp: parse_trailers_def split: if_splits)
      then show ?thesis using tf by (auto simp: map_of_dset)
    qed
  qed
qed

lemma parse_trailers_replaces:
  "parse_trailers d = parse_trailers (dset d (KStr ''files'') (VDict []))"
  by (simp add: parse_trailers_def dset_dset)

lemma set_file_result:
  "set_file e k v = Inr e' \<Longrightarrow>
   \<exists>f. map_of e (KStr ''files'') = Some (VDict f) \<and> e' = dset e (KStr ''files'') (VDict (dset f (KStr k) v))"
  by (auto simp: set_file_def ebind_eq_Inr dget_def split: option.splits pyval.splits)

lemma delete_data_keys_other:
  "delete_data_keys e ks = Inr e' \<Longrightarrow> k \<noteq> KStr ''data'' \<Longrightarrow> map_of e' k = map_of e k"
  by (induction ks arbitrary: e) (auto simp: map_of_dset split: option.splits pyval.splits)

lemma delete_data_keys_data:
  "delete_data_keys e ks = Inr e' \<Longrightarrow> map_of e (KStr ''data'') = Some (VDict p) \<Longrightarrow>
   \<exists>p'. map_of e' (KStr ''data'') = Some (VDict p') \<and>
        (\<forall>k. map_of p' k = (if k \<in> KStr ` set ks then None else map_of p k))"
proof (induction ks arbitrary: e p)
  case Nil
  then show ?case by auto
next
  case (Cons a ks)
  let ?e = "dset e (KStr ''data'') (VDict (AList.delete (KStr a) p))"
  from Cons.prems have "delete_data_keys ?e ks = Inr e'" by simp
  moreover have "map_of ?e (KStr ''data'') = Some (VDict (AList.delete (KStr a) p))"
    by (simp add: map_of_dset)
  ultimately obtain p' where "map_of e' (KStr ''data'') = Some (VDict p')"
    "\<forall>k. map_of p' k = (if k \<in> KStr ` set ks then None else map_of (AList.delete (KStr a) p) k)"
    using Cons.IH by blast
  then show ?case by (auto simp: map_of_delete)
qed

lemma file_entry_cong: "map_of e' (KStr ''files'') = map_of e (KStr ''files'') \<Longrightarrow> file_entry e' k = file_entry e k"
  by (simp add: file_entry_def)

lemma file_entry_dset: "x \<noteq> KStr ''files'' \<Longrightarrow> file_entry (dset e x v) k = file_entry e k"
  by (simp add: file_entry_def map_of_dset)

lemma set_file_entry:
  assumes "set_file e k v = Inr e'"
  shows "file_entry e' k' = (if k' = k then Some v else file_entry e k')"
    and "x \<noteq> KStr ''files'' \<Longrightarrow> map_of e' x = map_of e x"
    and "\<exists>f. map_of e' (KStr ''files'') = Some (VDict f)"
  using set_file_result [OF assms] by (auto simp: file_entry_def map_of_dset)

lemma append_file_entry:
  assumes "append_file e k x = Inr e'"
  shows "file_entry e' k' = (if k' = k then Some (VList ((case file_entry e k of Some (VList xs) \<Rightarrow> xs | _ \<Rightarrow> []) @ [x])) else file_entry e k')"
    and "y \<noteq> KStr ''files'' \<Longrightarrow> map_of e' y = map_of e y"
    and "\<exists>xs. file_entry e' k = Some (VList xs)"
  using assms
  by (auto simp: append_file_def ebind_eq_Inr dget_def file_entry_def map_of_dset
           split: option.splits pyval.splits)

lemma subtitles_loop_entry:
  assumes "subtitles_loop subs e = Inr e'"
  shows "k' \<noteq> ''subtitles'' \<Longrightarrow> file_entry e' k' = file_entry e k'"
    and "y \<noteq> KStr ''files'' \<Longrightarrow> map_of e' y = map_of e y"
    and "subs \<noteq> [] \<Longrightarrow> file_entry e' ''subtitles'' =
      Some (VList ((case file_entry e ''subtitles'' of Some (VList xs) \<Rightarrow> xs | _ \<Rightarrow> []) @ map (\<lambda>s. VDict [(KStr ''path'', s)]) subs))"
  using assms
proof (induction subs arbitrary: e)
  case Nil
  { case 1 then show ?case by simp }
  { case 2 then show ?case by simp }
  { case 3 then show ?case by simp }
next
  case (Cons s subs)
  { case 1
    from 1(2) obtain e1 where a: "append_file e ''subtitles'' (VDict [(KStr ''path'', s)]) = Inr e1"
      and l: "subtitles_loop subs e1 = Inr e'" by (auto simp: ebind_eq_Inr)
    show ?case using Cons.IH(1) [OF 1(1) l] append_file_entry(1) [OF a, of k'] 1(1) by simp }
  { case 2
    from 2(2) obtain e1 where a: "append_file e ''subtitles'' (VDict [(KStr ''path'', s)]) = Inr e1"
      and l: "subtitles_loop subs e1 = Inr e'" by (auto simp: ebind_eq_Inr)
    show ?case using Cons.IH(2) [OF 2(1) l] append_file_entry(2) [OF a 2(1)] by simp }
  { case 3
    from 3(2) obtain e1 where a: "append_file e ''subtitles'' (VDict [(KStr ''path'', s)]) = Inr e1"
      and l: "subtitles_loop subs e1 = Inr e'" by (auto simp: ebind_eq_Inr)
    have e1: "file_entry e1 ''subtitles'' = Some (VList ((case file_entry e ''subtitles'' of Some (VList xs) \<Rightarrow> xs | _ \<Rightarrow> []) @ [VDict [(KStr ''path'', s)]]))"
      using append_file_entry(1) [OF a, of "''subtitles''"] by simp
    show ?case
    proof (cases "subs = []")
      case True
      then show ?thesis using l e1 by simp
    next
      case False
      then show ?thesis using Cons.IH(3) [OF False l] e1 by simp
    qed }
qed

lemma get_images_falsy:
  "item ''images'' = Some c \<Longrightarrow> \<not> sql_truthy c \<Longrightarrow> get_images item = Inr (VList [])"
  by (simp add: get_images_def toList_def row_get_def)

lemma parse_trailers_entry:
  assumes "parse_trailers d = Inr d'"
  shows "k \<noteq> ''trailers'' \<Longrightarrow> file_entry d' k = None"
    and "\<exists>f. map_of d' (KStr ''files'') = Some (VDict f)"
    and "x \<noteq> KStr ''files'' \<Longrightarrow> x \<noteq> KStr ''data'' \<Longrightarrow> map_of d' x = map_of d x"
  using parse_trailers_result [OF assms]
  by (auto simp: file_entry_def trailer_files_def)

lemma parse_trailers_data:
  assumes "parse_trailers d = Inr d'"
  shows "map_of d (KStr ''data'') = Some (VDict p) \<Longrightarrow>
      \<exists>p'. map_of d' (KStr ''data'') = Some (VDict p') \<and>
           (\<forall>k. map_of p' k = (if k = KStr ''RemoteTrailers'' then (if p' = p then map_of p k else None) else map_of p k))"
    and "map_of d' (KStr ''data'') = None \<longleftrightarrow> map_of d (KStr ''data'') = None"
  using parse_trailers_result [OF assms]
  by (auto simp: map_of_delete)

lemma common_fields_base:
  assumes "parse_common_fields jparse fs st item e0 = Inr e" and "st \<noteq> BoxSetStrategy"
  shows "\<not> classified st k \<Longrightarrow> k \<noteq> ''data'' \<Longrightarrow> map_of e (KStr k) = map_of e0 (KStr k)"
    and "k \<in> set fs \<Longrightarrow> classified st k \<Longrightarrow>
         \<exists>v. common_field st item k = Inr (Some v) \<and> map_of e (KStr k) = Some v"
    and "\<exists>r. payload_of jparse item = Inr r \<and>
          map_of e (KStr ''data'') = (case r of None \<Rightarrow> map_of e0 (KStr ''data'') | Some v \<Rightarrow> Some v)"
proof -
  from assms obtain e1 where l: "common_loop st item fs e0 = Inr e1"
    and p: "parse_data jparse item e1 = Inr e"
    by (auto simp: parse_common_fields_def ebind_eq_Inr)
  show "\<not> classified st k \<Longrightarrow> k \<noteq> ''data'' \<Longrightarrow> map_of e (KStr k) = map_of e0 (KStr k)"
    using parse_data_lookup [OF p, of "KStr k"] common_loop_unclassified [OF l, of k] by simp
  show "\<exists>v. common_field st item k = Inr (Some v) \<and> map_of e (KStr k) = Some v"
    if k: "k \<in> set fs" "classified st k"
  proof -
    from common_loop_fields_ok [OF l k(1)] obtain r where r: "common_field st item k = Inr r" by blast
    have "r \<noteq> None" using r k(2)
      by (auto simp: common_field_def classified_def ebind_eq_Inr split: if_splits)
    then obtain v where v: "r = Some v" by auto
    have "k \<noteq> ''data''" using k(2) unclassified_names(2) by auto
    then have "map_of e (KStr k) = map_of e1 (KStr k)" using parse_data_lookup [OF p, of "KStr k"] by simp
    also have "\<dots> = Some v" using common_loop_lookup [OF l, of k] k r v by simp
    finally show ?thesis using r v by simp
  qed
  show "\<exists>r. payload_of jparse item = Inr r \<and>
          map_of e (KStr ''data'') = (case r of None \<Rightarrow> map_of e0 (KStr ''data'') | Some v \<Rightarrow> Some v)"
    using parse_data_payload [OF p] common_loop_unclassified [OF l, of "''data''"]
    by (auto split: option.splits)
qed

lemma tv_parse_result:
  assumes "tv_parse jparse fs st item = Inr e" and "st \<noteq> BoxSetStrategy"
  shows "\<exists>imgs. get_images item = Inr imgs \<and> file_entry e ''images'' = Some imgs"
    and "k \<noteq> ''images'' \<Longrightarrow> k \<noteq> ''trailers'' \<Longrightarrow> file_entry e k = None"
    and "k \<in> set fs \<Longrightarrow> classified st k \<Longrightarrow>
         \<exists>v. common_field st item k = Inr (Some v) \<and> map_of e (KStr k) = Some v"
    and "payload_of jparse item = Inr (Some (VDict p)) \<Longrightarrow>
         \<exists>p'. map_of e (KStr ''data'') = Some (VDict p') \<and>
              (\<forall>k. k \<noteq> KStr ''RemoteTrailers'' \<longrightarrow> map_of p' k = map_of p k)"
proof -
  from assms(1) obtain e1 e2 imgs e3 ov where
    c: "parse_common_fields jparse fs st item [] = Inr e1"
    and t: "parse_trailers e1 = Inr e2"
    and g: "get_images item = Inr imgs"
    and s: "set_file e2 ''images'' imgs = Inr e3"
    and e: "e = dset e3 (KStr ''overview'') (VDict [(KStr ''en'', of_sql ov)])"
    by (auto simp: tv_parse_def ebind_eq_Inr)
  have fe: "file_entry e k = file_entry e3 k" for k
    using e by (simp add: file_entry_dset)
  show "\<exists>imgs. get_images item = Inr imgs \<and> file_entry e ''images'' = Some imgs"
    using g fe set_file_entry(1) [OF s, of "''images''"] by simp
  show "file_entry e k = None" if "k \<noteq> ''images''" "k \<noteq> ''trailers''"
    using that fe set_file_entry(1) [OF s, of k] parse_trailers_entry(1) [OF t, of k] by simp
  show "\<exists>v. common_field st item k = Inr (Some v) \<and> map_of e (KStr k) = Some v"
    if k: "k \<in> set fs" "classified st k"
  proof -
    have ne: "k \<noteq> ''overview''" "k \<noteq> ''files''" "k \<noteq> ''data''" using k(2) unclassified_names by auto
    from common_fields_base(2) [OF c assms(2) k] obtain v where
      v: "common_field st item k = Inr (Some v)" "map_of e1 (KStr k) = Some v" by blast
    have "map_of e (KStr k) = map_of e3 (KStr k)" using e ne by (simp add: map_of_dset)
    also have "\<dots> = map_of e2 (KStr k)" using set_file_entry(2) [OF s, of "KStr k"] ne by simp
    also have "\<dots> = map_of e1 (KStr k)" using parse_trailers_entry(3) [OF t, of "KStr k"] ne by simp
    finally show ?thesis using v by simp
  qed
  show "\<exists>p'. map_of e (KStr ''data'') = Some (VDict p') \<and>
              (\<forall>k. k \<noteq> KStr ''RemoteTrailers'' \<longrightarrow> map_of p' k = map_of p k)"
    if p: "payload_of jparse item = Inr (Some (VDict p))"
  proof -
    have "map_of e1 (KStr ''data'') = Some (VDict p)"
      using common_fields_base(3) [OF c assms(2)] p by auto
    from parse_trailers_data(1) [OF t this] obtain p' where
      p': "map_of e2 (KStr ''data'') = Some (VDict p')"
        "\<forall>k. k \<noteq> KStr ''RemoteTrailers'' \<longrightarrow> map_of p' k = map_of p k" by auto
    have "map_of e (KStr ''data'') = map_of e3 (KStr ''data'')" using e by (simp add: map_of_dset)
    also have "\<dots> = map_of e2 (KStr ''data'')" using set_file_entry(2) [OF s, of "KStr ''data''"] by simp
    finally show ?thesis using p' by auto
  qed
qed

section \<open>The list and map decoders\<close>



lemma length_split_on: "length (split_on sep s) = Suc (count_list s sep)"
proof (induction s)
  case Nil
  then show ?case by simp
next
  case (Cons c cs)
  obtain t ts where ts: "split_on sep cs = t # ts"
    using split_on_nonempty [of sep cs] by (cases "split_on sep cs") auto
  show ?case using Cons ts by auto
qed

lemma split_on_absent: "sep \<notin> set s \<Longrightarrow> split_on sep s = [s]"
  by (induction s) auto

lemma split_on_once:
  "count_list s sep = 1 \<Longrightarrow>
   split_on sep s = [takeWhile (\<lambda>c. c \<noteq> sep) s, drop 1 (dropWhile (\<lambda>c. c \<noteq> sep) s)]"
proof (induction s)
  case Nil
  then show ?case by simp
next
  case (Cons c cs)
  show ?case
  proof (cases "c = sep")
    case True
    then have "count_list cs sep = 0" using Cons.prems by simp
    then have "sep \<notin> set cs" by (simp add: count_list_0_iff)
    then show ?thesis using True by (simp add: split_on_absent)
  next
    case False
    then show ?thesis using Cons by simp
  qed
qed


lemma toDict_loop_error:
  "seg \<in> set segs \<Longrightarrow> count_list seg (CHR ''='') \<noteq> 1 \<Longrightarrow> toDict_loop segs d = Inl ValueError"
proof (induction segs arbitrary: d)
  case Nil
  then show ?case by simp
next
  case (Cons a segs)
  show ?case
  proof (cases "count_list a (CHR ''='') = 1")
    case True
    then show ?thesis using Cons by (auto simp: split_on_once)
  next
    case False
    then have "length (split_on (CHR ''='') a) \<noteq> 2" by (simp add: length_split_on)
    then show ?thesis
      by (cases "split_on (CHR ''='') a" rule: remdups_adj.cases) (auto split: list.splits)
  qed
qed



section \<open>Claims on the image descriptor decoder\<close>



end
